theory Spec2Isabelle
  imports Main "HOL-Library.Multiset"
begin

section \<open>The email viewer of \<^verbatim>\<open>utils.py\<close>\<close>

text \<open>
  The module has two parts: \<^verbatim>\<open>load_email_files\<close>, which lists the \<^verbatim>\<open>*.txt\<close> files below
  two directories and sorts each list by the number in the file name, and the class
  \<^verbatim>\<open>EmailViewer\<close>, whose button handlers move an index through the list of the current
  mode. Exceptions are values of \<open>py_error\<close>; a handler returns the exception it raised
  (if any) together with the object as the handler left it, since in Python what was
  assigned before a raise stays assigned.
\<close>

subsection \<open>Python values used by the module\<close>

datatype py_error = ValueError | IndexError | OSError

text \<open>A \<^verbatim>\<open>pathlib.Path\<close>: the directory components and the final component, \<^verbatim>\<open>name\<close>.\<close>

record path =
  parents :: "string list"
  name :: string

text \<open>\<^verbatim>\<open>str.rfind\<close> of one character: the index of its last occurrence.\<close>

fun rfind :: "char \<Rightarrow> string \<Rightarrow> nat option" where
  "rfind c [] = None"
| "rfind c (x # xs) =
     (case rfind c xs of
        Some i \<Rightarrow> Some (Suc i)
      | None \<Rightarrow> if x = c then Some 0 else None)"

text \<open>
  \<^verbatim>\<open>PurePath.stem\<close>: with \<^verbatim>\<open>i = name.rfind('.')\<close>, the stem is \<^verbatim>\<open>name[:i]\<close> when
  \<^verbatim>\<open>0 < i < len(name) - 1\<close>, and the whole name otherwise.
\<close>

definition stem :: "path \<Rightarrow> string" where
  "stem p =
     (case rfind (CHR ''.'') (name p) of
        None \<Rightarrow> name p
      | Some i \<Rightarrow> if 0 < i \<and> i + 1 < length (name p) then take i (name p) else name p)"

text \<open>
  \<^verbatim>\<open>int(s)\<close> on a string, base ten: surrounding whitespace is stripped, one sign is
  allowed, then decimal digits follow, where a single underscore may stand between two
  digits. Anything else raises \<^verbatim>\<open>ValueError\<close>, which is \<open>None\<close> here. Strings are byte
  strings, and the digits and the whitespace are the ASCII ones: \<open>py_int\<close> is \<^verbatim>\<open>int\<close> on
  ASCII stems only. Python also accepts the decimal digits and the whitespace of other
  scripts, which are outside this model; nothing proved below looks into \<open>py_int\<close>.
\<close>

definition is_space :: "char \<Rightarrow> bool" where
  "is_space c = (c \<in> set [CHR '' '', CHR 0x09, CHR 0x0A, CHR 0x0B, CHR 0x0C, CHR 0x0D])"

definition strip :: "string \<Rightarrow> string" where
  "strip s = rev (dropWhile is_space (rev (dropWhile is_space s)))"

definition digit_of :: "char \<Rightarrow> int option" where
  "digit_of = map_of
     [(CHR ''0'', 0), (CHR ''1'', 1), (CHR ''2'', 2), (CHR ''3'', 3), (CHR ''4'', 4),
      (CHR ''5'', 5), (CHR ''6'', 6), (CHR ''7'', 7), (CHR ''8'', 8), (CHR ''9'', 9)]"

fun digits_from :: "int \<Rightarrow> string \<Rightarrow> int option" where
  "digits_from acc [] = Some acc"
| "digits_from acc [c] =
     (case digit_of c of Some d \<Rightarrow> Some (10 * acc + d) | None \<Rightarrow> None)"
| "digits_from acc (c # c' # cs) =
     (case digit_of c of
        Some d \<Rightarrow> digits_from (10 * acc + d) (c' # cs)
      | None \<Rightarrow>
          if c = CHR ''_'' then
            (case digit_of c' of
               Some d \<Rightarrow> digits_from (10 * acc + d) cs
             | None \<Rightarrow> None)
          else None)"

definition unsigned_int :: "string \<Rightarrow> int option" where
  "unsigned_int s =
     (case s of
        [] \<Rightarrow> None
      | c # cs \<Rightarrow> (case digit_of c of Some d \<Rightarrow> digits_from d cs | None \<Rightarrow> None))"

definition py_int :: "string \<Rightarrow> int option" where
  "py_int s =
     (case strip s of
        [] \<Rightarrow> None
      | c # cs \<Rightarrow>
          if c = CHR ''-'' then map_option uminus (unsigned_int cs)
          else if c = CHR ''+'' then unsigned_int cs
          else unsigned_int (c # cs))"

text \<open>
  \<^verbatim>\<open>xs[i]\<close> on a list: a negative index counts from the end, an index outside the list
  raises \<^verbatim>\<open>IndexError\<close>.
\<close>

definition list_getitem :: "'a list \<Rightarrow> int \<Rightarrow> py_error + 'a" where
  "list_getitem xs i =
     (if 0 \<le> i then
        (if i < int (length xs) then Inr (xs ! nat i) else Inl IndexError)
      else if - int (length xs) \<le> i then Inr (xs ! nat (int (length xs) + i))
      else Inl IndexError)"

text \<open>
  \<^verbatim>\<open>random.randint(a, b)\<close> is \<^verbatim>\<open>randrange(a, b + 1)\<close>: with \<^verbatim>\<open>width = b + 1 - a\<close> it
  returns \<^verbatim>\<open>a + _randbelow(width)\<close> when the width is positive and raises \<^verbatim>\<open>ValueError\<close>
  (empty range) otherwise. The generator's raw draw is the parameter \<open>draw\<close>; reduced
  modulo the width it reaches every value below the width.
\<close>

definition randint :: "nat \<Rightarrow> int \<Rightarrow> int \<Rightarrow> py_error + int" where
  "randint draw a b =
     (let width = b + 1 - a
      in if 0 < width then Inr (a + int (draw mod nat width)) else Inl ValueError)"

subsection \<open>The file system as the module sees it\<close>

text \<open>
  What \<^verbatim>\<open>rglob\<close> meets at a path. \<open>NoDirectory\<close>: the path does not exist or is no
  directory (\<^verbatim>\<open>is_dir\<close> is false: \<^verbatim>\<open>stat\<close> fails with ENOENT, ENOTDIR, EBADF or ELOOP,
  or succeeds on a file). \<open>Refused\<close>: the test or the walk fails with an \<^verbatim>\<open>OSError\<close> that
  pathlib does not swallow, such as a name that is too long or a parent that may not be
  searched. \<open>Entries ps\<close>: the path is a directory, and \<open>ps\<close> are the entries below it
  that match \<^verbatim>\<open>*.txt\<close>, in the order the recursive walk finds them.
\<close>

datatype dir_listing = NoDirectory | Refused | Entries "path list"

text \<open>
  \<open>read_text p\<close> is the outcome of \<^verbatim>\<open>open(p, 'r', encoding='utf-8', errors='ignore')\<close>
  followed by \<^verbatim>\<open>f.read()\<close>: the content, or the text of the exception.
\<close>

record filesystem =
  listing :: "string \<Rightarrow> dir_listing"
  read_text :: "path \<Rightarrow> string + string"

text \<open>
  \<^verbatim>\<open>list(Path(d).rglob('*.txt'))\<close>. pathlib's selector starts with
  \<^verbatim>\<open>if not is_dir(parent_path): return iter([])\<close>, so a path that is no directory yields
  nothing and raises nothing; \<^verbatim>\<open>is_dir\<close> itself swallows the four error numbers above
  and raises every other \<^verbatim>\<open>OSError\<close> again.
\<close>

definition rglob :: "filesystem \<Rightarrow> string \<Rightarrow> py_error + path list" where
  "rglob fs d =
     (case listing fs d of
        NoDirectory \<Rightarrow> Inr []
      | Refused \<Rightarrow> Inl OSError
      | Entries ps \<Rightarrow> Inr ps)"

subsection \<open>\<^verbatim>\<open>load_email_files\<close>\<close>

text \<open>
  The sort key is an \<^verbatim>\<open>int\<close> or \<^verbatim>\<open>float('inf')\<close>. Python compares an \<^verbatim>\<open>int\<close> with a
  \<^verbatim>\<open>float\<close> exactly, so every integer is below infinity and infinity is not below itself.
\<close>

datatype key = IntKey int | InfKey

instantiation key :: linorder
begin

fun less_eq_key :: "key \<Rightarrow> key \<Rightarrow> bool" where
  "less_eq_key (IntKey a) (IntKey b) = (a \<le> b)"
| "less_eq_key (IntKey a) InfKey = True"
| "less_eq_key InfKey (IntKey b) = False"
| "less_eq_key InfKey InfKey = True"

fun less_key :: "key \<Rightarrow> key \<Rightarrow> bool" where
  "less_key (IntKey a) (IntKey b) = (a < b)"
| "less_key (IntKey a) InfKey = True"
| "less_key InfKey k = False"

instance
proof
  fix x y z :: key
  show "(x < y) = (x \<le> y \<and> \<not> y \<le> x)"
    by (cases x; cases y) auto
  show "x \<le> x"
    by (cases x) auto
  show "x \<le> y \<Longrightarrow> y \<le> z \<Longrightarrow> x \<le> z"
    by (cases x; cases y; cases z) auto
  show "x \<le> y \<Longrightarrow> y \<le> x \<Longrightarrow> x = y"
    by (cases x; cases y) auto
  show "x \<le> y \<or> y \<le> x"
    by (cases x; cases y) auto
qed

end

text \<open>The inner function \<^verbatim>\<open>sort_key\<close>: \<^verbatim>\<open>int(path.stem)\<close>, or infinity on \<^verbatim>\<open>ValueError\<close>.\<close>

definition sort_key_fn :: "path \<Rightarrow> key" where
  "sort_key_fn p = (case py_int (stem p) of Some n \<Rightarrow> IntKey n | None \<Rightarrow> InfKey)"

text \<open>
  \<^verbatim>\<open>sorted(xs, key=f)\<close> is a stable sort by \<open>f\<close>. The keys are linearly ordered, so the
  result of a stable sort is determined, and it is the one of \<^const>\<open>sort_key\<close> (insertion
  sort, stable).
\<close>

definition load_email_files :: "filesystem \<Rightarrow> string \<Rightarrow> string \<Rightarrow> py_error + (path list \<times> path list)" where
  "load_email_files fs ham_dir spam_dir =
     (case rglob fs ham_dir of
        Inl e \<Rightarrow> Inl e
      | Inr ham_files_raw \<Rightarrow>
          (case rglob fs spam_dir of
             Inl e \<Rightarrow> Inl e
           | Inr spam_files_raw \<Rightarrow>
               Inr (sort_key sort_key_fn ham_files_raw, sort_key sort_key_fn spam_files_raw)))"

subsection \<open>\<^verbatim>\<open>EmailViewer\<close>\<close>

datatype mode = Ham | Spam

text \<open>
  The info label is an HTML string; what varies in it is kept: the prompt of a mode
  (\<^verbatim>\<open>Click the button to load a random email\<close>), or mode, \<^verbatim>\<open>index + 1\<close>, \<^verbatim>\<open>total\<close> and
  \<^verbatim>\<open>file_name\<close> of \<^verbatim>\<open>Email {index + 1}/{total} | {file_name}\<close>.
\<close>

datatype info = Prompt mode | Email mode int int string

text \<open>The lines printed into the output widget, again by what varies in them.\<close>

datatype line =
    TypeLine mode
  | FileLine string int int
  | Rule
  | Body string
  | ErrorLine string

record viewer =
  ham_files :: "path list"
  spam_files :: "path list"
  current_mode :: mode
  current_index :: "int option"
  info_label :: info
  mode_button_description :: string
  mode_button_style :: string
  prev_button_disabled :: bool
  next_button_disabled :: bool
  output_widget :: "line list"

text \<open>\<^verbatim>\<open>__init__\<close>\<close>

definition init :: "path list \<Rightarrow> path list \<Rightarrow> viewer" where
  "init hams spams =
     \<lparr> ham_files = hams, spam_files = spams, current_mode = Ham, current_index = None,
       info_label = Prompt Ham,
       mode_button_description = ''Switch to SPAM'', mode_button_style = ''info'',
       prev_button_disabled = True, next_button_disabled = True,
       output_widget = [] \<rparr>"

definition get_current_file_list :: "viewer \<Rightarrow> path list" where
  "get_current_file_list s = (if current_mode s = Ham then ham_files s else spam_files s)"

text \<open>
  \<^verbatim>\<open>_load_email_by_index\<close>. The index is assigned before the \<^verbatim>\<open>try\<close>; label and buttons
  are assigned inside it, after the read; the handler of \<^verbatim>\<open>except Exception\<close> only
  prints. \<^verbatim>\<open>clear_output(wait=True)\<close> empties the output when the next line is printed,
  and each branch prints.
\<close>

definition load_email_by_index :: "filesystem \<Rightarrow> int \<Rightarrow> viewer \<Rightarrow> py_error option \<times> viewer" where
  "load_email_by_index fs index s =
     (let file_list = get_current_file_list s
      in if index < 0 \<or> index \<ge> int (length file_list) then (None, s)
         else
           let s1 = s\<lparr>current_index := Some index\<rparr>
           in case list_getitem file_list index of
                Inl e \<Rightarrow> (Some e, s1)
              | Inr file_path \<Rightarrow>
                  let email_type = current_mode s1
                  in case read_text fs file_path of
                       Inr content \<Rightarrow>
                         let file_name = name file_path;
                             total = int (length file_list)
                         in (None,
                             s1\<lparr>info_label := Email email_type (index + 1) total file_name,
                                prev_button_disabled := (index = 0),
                                next_button_disabled := (index = int (length file_list) - 1),
                                output_widget := [TypeLine email_type,
                                           FileLine file_name (index + 1) total,
                                           Rule, Body content, Rule]\<rparr>)
                     | Inl e \<Rightarrow> (None, s1\<lparr>output_widget := [ErrorLine e]\<rparr>))"

text \<open>\<^verbatim>\<open>_toggle_mode\<close>\<close>

definition toggle_mode :: "viewer \<Rightarrow> py_error option \<times> viewer" where
  "toggle_mode s =
     (let s1 =
        (if current_mode s = Ham then
           s\<lparr>current_mode := Spam, mode_button_description := ''Switch to HAM'',
             mode_button_style := ''warning'', info_label := Prompt Spam\<rparr>
         else
           s\<lparr>current_mode := Ham, mode_button_description := ''Switch to SPAM'',
             mode_button_style := ''info'', info_label := Prompt Ham\<rparr>)
      in (None, s1\<lparr>current_index := None, prev_button_disabled := True,
                    next_button_disabled := True\<rparr>))"

text \<open>\<^verbatim>\<open>_load_random_email\<close>\<close>

definition load_random_email :: "filesystem \<Rightarrow> nat \<Rightarrow> viewer \<Rightarrow> py_error option \<times> viewer" where
  "load_random_email fs draw s =
     (let file_list = get_current_file_list s
      in case randint draw 0 (int (length file_list) - 1) of
           Inl e \<Rightarrow> (Some e, s)
         | Inr random_index \<Rightarrow> load_email_by_index fs random_index s)"

text \<open>\<^verbatim>\<open>_load_previous_email\<close>\<close>

definition load_previous_email :: "filesystem \<Rightarrow> viewer \<Rightarrow> py_error option \<times> viewer" where
  "load_previous_email fs s =
     (case current_index s of
        None \<Rightarrow> (None, s)
      | Some i \<Rightarrow> if i > 0 then load_email_by_index fs (i - 1) s else (None, s))"

text \<open>\<^verbatim>\<open>_load_next_email\<close>\<close>

definition load_next_email :: "filesystem \<Rightarrow> viewer \<Rightarrow> py_error option \<times> viewer" where
  "load_next_email fs s =
     (let file_list = get_current_file_list s
      in case current_index s of
           None \<Rightarrow> (None, s)
         | Some i \<Rightarrow>
             if i < int (length file_list) - 1 then load_email_by_index fs (i + 1) s
             else (None, s))"

subsection \<open>What the presentation layer reads off the viewer\<close>

definition has_previous :: "viewer \<Rightarrow> bool" where
  "has_previous s = (\<not> prev_button_disabled s)"

definition has_next :: "viewer \<Rightarrow> bool" where
  "has_next s = (\<not> next_button_disabled s)"

text \<open>The invariant of the navigation state: an index that is present is inside the list
  of the current mode.\<close>

definition index_valid :: "viewer \<Rightarrow> bool" where
  "index_valid s =
     (case current_index s of
        None \<Rightarrow> True
      | Some i \<Rightarrow> 0 \<le> i \<and> i < int (length (get_current_file_list s)))"

text \<open>The user's actions. A session is a list of actions, each with the file system as
  it is when the action runs; \<open>run\<close> gives the viewer after the session, whether an
  action returned or raised (the widget goes on after a handler has raised).\<close>

datatype action =
    ToggleMode
  | LoadRandom nat
  | LoadPrevious
  | LoadNext
  | LoadAt int

fun perform :: "filesystem \<Rightarrow> action \<Rightarrow> viewer \<Rightarrow> py_error option \<times> viewer" where
  "perform fs ToggleMode s = toggle_mode s"
| "perform fs (LoadRandom draw) s = load_random_email fs draw s"
| "perform fs LoadPrevious s = load_previous_email fs s"
| "perform fs LoadNext s = load_next_email fs s"
| "perform fs (LoadAt index) s = load_email_by_index fs index s"

fun run :: "(filesystem \<times> action) list \<Rightarrow> viewer \<Rightarrow> viewer" where
  "run [] s = s"
| "run ((fs, a) # session) s = run session (snd (perform fs a s))"

subsection \<open>The order of a catalogue, in the words of the specification\<close>

text \<open>A file is numeric when \<^verbatim>\<open>int(path.stem)\<close> succeeds; \<open>numeric_stems\<close> lists the
  integers of the numeric files of a list, in the order of the list.\<close>

definition numeric :: "path \<Rightarrow> bool" where
  "numeric p = (py_int (stem p) \<noteq> None)"

fun numeric_stems :: "path list \<Rightarrow> int list" where
  "numeric_stems [] = []"
| "numeric_stems (p # ps) =
     (case py_int (stem p) of None \<Rightarrow> numeric_stems ps | Some n \<Rightarrow> n # numeric_stems ps)"

text \<open>
  \<open>sorted_catalog found ps\<close>: the list \<open>ps\<close> holds the files \<open>found\<close>, its numeric files
  ascend by their integer, all numeric files stand before all others, and the others
  stand in the order in which they were found.
\<close>

definition sorted_catalog :: "path list \<Rightarrow> path list \<Rightarrow> bool" where
  "sorted_catalog found ps =
     (mset ps = mset found
      \<and> sorted (numeric_stems ps)
      \<and> ps = filter numeric ps @ filter (\<lambda>p. \<not> numeric p) ps
      \<and> filter (\<lambda>p. \<not> numeric p) ps = filter (\<lambda>p. \<not> numeric p) found)"

subsection \<open>A small data set\<close>

definition txt_file :: "string \<Rightarrow> path" where
  "txt_file n = \<lparr>parents = [''data''], name = n\<rparr>"

text \<open>Two directories with files, an empty one, one that may not be examined, and no
  other directory; \<^verbatim>\<open>3.txt\<close> cannot be read.\<close>

definition example_fs :: filesystem where
  "example_fs =
     \<lparr>listing = (\<lambda>d.
        if d = ''data/ham'' then
          Entries [txt_file ''3.txt'', txt_file ''1.txt'', txt_file ''2.txt'']
        else if d = ''data/spam'' then Entries [txt_file ''abc.txt'', txt_file ''2.txt'']
        else if d = ''data/empty'' then Entries []
        else if d = ''locked/ham'' then Refused
        else NoDirectory),
      read_text = (\<lambda>p.
        if name p = ''3.txt'' then Inl ''Permission denied'' else Inr ''Hello'')\<rparr>"

definition example_viewer :: viewer where
  "example_viewer =
     init [txt_file ''1.txt'', txt_file ''2.txt'', txt_file ''3.txt'']
          [txt_file ''2.txt'', txt_file ''abc.txt'']"

text \<open>The viewer after the second ham file has been loaded.\<close>

definition example_at_second :: viewer where
  "example_at_second = snd (load_email_by_index example_fs 1 example_viewer)"

section \<open>Properties\<close>

subsection \<open>Loading by index\<close>

lemma list_getitem_in_range:
  "0 \<le> i \<Longrightarrow> i < int (length xs) \<Longrightarrow> list_getitem xs i = Inr (xs ! nat i)"
  by (simp add: list_getitem_def)

text \<open>The bounds check stands before the list access, so the access never raises, and
  the read is inside the \<^verbatim>\<open>try\<close>: the method always returns.\<close>

lemma load_email_by_index_returns: "fst (load_email_by_index fs i s) = None"
  by (simp add: load_email_by_index_def list_getitem_def Let_def split: sum.splits)

lemma load_email_by_index_out: 
  "i < 0 \<or> i \<ge> int (length (get_current_file_list s)) \<Longrightarrow>
     load_email_by_index fs i s = (None, s)"
  by (auto simp add: load_email_by_index_def)

lemma load_email_by_index_read_error:
  assumes "0 \<le> i" "i < int (length (get_current_file_list s))"
    and "read_text fs (get_current_file_list s ! nat i) = Inl e"
  shows "load_email_by_index fs i s =
           (None, s\<lparr>current_index := Some i, output_widget := [ErrorLine e]\<rparr>)"
  using assms by (simp add: load_email_by_index_def list_getitem_in_range Let_def)

lemma load_email_by_index_read_ok:
  assumes "0 \<le> i" "i < int (length (get_current_file_list s))"
    and "read_text fs (get_current_file_list s ! nat i) = Inr content"
  shows "load_email_by_index fs i s =
           (None, s\<lparr>current_index := Some i,
                    info_label := Email (current_mode s) (i + 1)
                        (int (length (get_current_file_list s)))
                        (name (get_current_file_list s ! nat i)),
                    prev_button_disabled := (i = 0),
                    next_button_disabled := (i = int (length (get_current_file_list s)) - 1),
                    output_widget :=
                      [TypeLine (current_mode s),
                       FileLine (name (get_current_file_list s ! nat i)) (i + 1)
                         (int (length (get_current_file_list s))),
                       Rule, Body content, Rule]\<rparr>)"
  using assms by (simp add: load_email_by_index_def list_getitem_in_range Let_def)

lemma load_email_by_index_files:
  "ham_files (snd (load_email_by_index fs i s)) = ham_files s
   \<and> spam_files (snd (load_email_by_index fs i s)) = spam_files s
   \<and> current_mode (snd (load_email_by_index fs i s)) = current_mode s"
  by (simp add: load_email_by_index_def Let_def split: sum.splits)

lemma load_email_by_index_list:
  "get_current_file_list (snd (load_email_by_index fs i s)) = get_current_file_list s"
  by (simp add: get_current_file_list_def load_email_by_index_files)

lemma load_email_by_index_index:
  "current_index (snd (load_email_by_index fs i s)) =
     (if 0 \<le> i \<and> i < int (length (get_current_file_list s)) then Some i else current_index s)"
  by (simp add: load_email_by_index_def Let_def split: sum.splits)

text \<open>
  Claim C9. For every viewer and every index that is negative or at least the length of
  the list of the current mode, \<^verbatim>\<open>_load_email_by_index\<close> returns normally and leaves the
  whole object as it was: mode, index, label, buttons and output.
\<close>

theorem load_email_by_index_out_of_range:
  "index < 0 \<or> index \<ge> int (length (get_current_file_list s)) \<Longrightarrow>
     load_email_by_index fs index s = (None, s)"
  by (auto simp add: load_email_by_index_def)

theorem load_email_by_index_out_of_range_witness:
  "(3 \<ge> int (length (get_current_file_list example_viewer)))
   \<and> load_email_by_index example_fs 3 example_viewer = (None, example_viewer)
   \<and> (- 1 < (0 :: int))
   \<and> load_email_by_index example_fs (- 1) example_viewer = (None, example_viewer)"
proof -
  have above: "3 \<ge> int (length (get_current_file_list example_viewer))"
    by (simp add: example_viewer_def init_def get_current_file_list_def)
  have below: "- 1 < (0 :: int)" by simp
  show ?thesis
    using above below
      load_email_by_index_out_of_range [of 3 example_viewer example_fs]
      load_email_by_index_out_of_range [of "- 1" example_viewer example_fs]
    by simp
qed

text \<open>
  After a successful read of a file in bounds the viewer shows the new position: the
  index is \<open>i\<close>, the label shows position \<open>i + 1\<close> of \<open>n\<close> and the name of the \<open>i\<close>-th
  file, the previous button is enabled exactly when \<open>i > 0\<close>, and the next button
  exactly when \<open>i < n - 1\<close>. The index is set whatever the read gives.
\<close>

lemma load_email_by_index_in_range:
  assumes "0 \<le> i" and "i < int (length (get_current_file_list s))"
  shows "current_index (snd (load_email_by_index fs i s)) = Some i
    \<and> (\<forall>content. read_text fs (get_current_file_list s ! nat i) = Inr content \<longrightarrow>
          info_label (snd (load_email_by_index fs i s)) =
            Email (current_mode s) (i + 1) (int (length (get_current_file_list s)))
              (name (get_current_file_list s ! nat i))
          \<and> has_previous (snd (load_email_by_index fs i s)) = (i > 0)
          \<and> has_next (snd (load_email_by_index fs i s))
              = (i < int (length (get_current_file_list s)) - 1))"
proof -
  have "current_index (snd (load_email_by_index fs i s)) = Some i"
    using assms by (simp add: load_email_by_index_index)
  moreover have
    "info_label (snd (load_email_by_index fs i s)) =
       Email (current_mode s) (i + 1) (int (length (get_current_file_list s)))
         (name (get_current_file_list s ! nat i))
     \<and> has_previous (snd (load_email_by_index fs i s)) = (i > 0)
     \<and> has_next (snd (load_email_by_index fs i s))
         = (i < int (length (get_current_file_list s)) - 1)"
    if "read_text fs (get_current_file_list s ! nat i) = Inr content" for content
    using assms by (auto simp add: load_email_by_index_read_ok [OF assms that]
        has_previous_def has_next_def)
  ultimately show ?thesis by blast
qed

text \<open>The first ham file of the example: position 1 of 3, \<^verbatim>\<open>1.txt\<close>, no previous file, a
  next one.\<close>

lemma load_email_by_index_in_range_example:
  "current_index (snd (load_email_by_index example_fs 0 example_viewer)) = Some 0
   \<and> info_label (snd (load_email_by_index example_fs 0 example_viewer))
       = Email Ham 1 3 ''1.txt''
   \<and> \<not> has_previous (snd (load_email_by_index example_fs 0 example_viewer))
   \<and> has_next (snd (load_email_by_index example_fs 0 example_viewer))"
proof -
  have lo: "(0 :: int) \<le> 0" by simp
  have hi: "0 < int (length (get_current_file_list example_viewer))"
    by (simp add: example_viewer_def init_def get_current_file_list_def)
  have rd: "read_text example_fs (get_current_file_list example_viewer ! nat 0) = Inr ''Hello''"
    by (simp add: example_viewer_def init_def get_current_file_list_def example_fs_def
        txt_file_def)
  have facts: "current_mode example_viewer = Ham"
    "int (length (get_current_file_list example_viewer)) = 3"
    "name (get_current_file_list example_viewer ! nat 0) = ''1.txt''"
    by (simp_all add: example_viewer_def init_def get_current_file_list_def txt_file_def)
  show ?thesis
    using lo hi rd facts load_email_by_index_in_range [OF lo hi, of example_fs]
    by simp
qed

text \<open>
  Claim C5. For every index \<open>i\<close> with \<open>0 \<le> i < n\<close>, loading at \<open>i\<close> should set the current
  index to \<open>i\<close> and show position, total, file name and the two button states of \<open>i\<close>.
  The code does so after every successful read (the lemma above) and misses it when the
  read fails. Here the third ham file, which is in bounds and cannot be read, is loaded
  into the fresh viewer: the index becomes 2, and the previous button stays disabled
  although \<open>2 > 0\<close>, and the label is still the prompt.
\<close>

theorem load_email_by_index_unreadable_fresh:
  "(0 :: int) \<le> 2 \<and> 2 < int (length (get_current_file_list example_viewer))
   \<and> load_email_by_index example_fs 2 example_viewer =
       (None, example_viewer\<lparr>current_index := Some 2,
                                output_widget := [ErrorLine ''Permission denied'']\<rparr>)
   \<and> has_previous (snd (load_email_by_index example_fs 2 example_viewer)) \<noteq> ((2 :: int) > 0)
   \<and> info_label (snd (load_email_by_index example_fs 2 example_viewer)) = Prompt Ham"
  by (simp add: load_email_by_index_def list_getitem_def Let_def example_viewer_def init_def
      get_current_file_list_def example_fs_def txt_file_def has_previous_def)

text \<open>
  Claim C3. For an index in bounds whose file cannot be read, \<^verbatim>\<open>_load_email_by_index\<close>
  returns normally, prints the text of the error and sets the current index. The label
  and the two buttons are assigned only after a successful read, so they keep the
  values of the position before. Here the viewer stands at the second of three ham
  files and the third is loaded: the index becomes 2, which is the last one, and the
  next button stays enabled and the label still names \<^verbatim>\<open>2.txt\<close>.
\<close>

theorem load_email_by_index_unreadable:
  "load_email_by_index example_fs 2 example_at_second =
     (None, example_at_second\<lparr>current_index := Some 2,
                               output_widget := [ErrorLine ''Permission denied'']\<rparr>)
   \<and> has_next (snd (load_email_by_index example_fs 2 example_at_second))
   \<and> (2 :: int) = int (length (get_current_file_list example_at_second)) - 1
   \<and> info_label (snd (load_email_by_index example_fs 2 example_at_second))
       = Email Ham 2 3 ''2.txt''"
proof -
  have s: "example_at_second =
    example_viewer\<lparr>current_index := Some 1, info_label := Email Ham 2 3 ''2.txt'',
      prev_button_disabled := False, next_button_disabled := False,
      output_widget := [TypeLine Ham, FileLine ''2.txt'' 2 3, Rule, Body ''Hello'', Rule]\<rparr>"
    by (simp add: example_at_second_def load_email_by_index_def list_getitem_def Let_def
        example_viewer_def init_def get_current_file_list_def example_fs_def txt_file_def)
  show ?thesis
    unfolding s
    by (simp add: load_email_by_index_def list_getitem_def Let_def example_viewer_def init_def
        get_current_file_list_def example_fs_def txt_file_def has_next_def)
qed

subsection \<open>Switching the mode\<close>

text \<open>
  Claim C8. \<^verbatim>\<open>_toggle_mode\<close> always returns normally, turns ham into spam and spam into
  ham, sets the current index to none, and touches neither the file lists nor the output
  (it takes no file system: it reads nothing). Toggling twice gives the mode back.
\<close>

theorem toggle_mode_flips:
  "fst (toggle_mode s) = None
   \<and> current_mode (snd (toggle_mode s)) = (if current_mode s = Ham then Spam else Ham)
   \<and> current_index (snd (toggle_mode s)) = None
   \<and> output_widget (snd (toggle_mode s)) = output_widget s
   \<and> ham_files (snd (toggle_mode s)) = ham_files s
   \<and> spam_files (snd (toggle_mode s)) = spam_files s
   \<and> current_mode (snd (toggle_mode (snd (toggle_mode s)))) = current_mode s"
  by (cases "current_mode s") (simp_all add: toggle_mode_def)

subsection \<open>Loading a random email\<close>

text \<open>On a list that is not empty the random index is inside the list.\<close>

lemma load_random_email_in_range:
  assumes "get_current_file_list s \<noteq> []"
  shows "\<exists>i. 0 \<le> i \<and> i < int (length (get_current_file_list s))
      \<and> load_random_email fs draw s = load_email_by_index fs i s"
proof -
  let ?n = "length (get_current_file_list s)"
  have "0 < ?n" using assms by simp
  then have "draw mod ?n < ?n" by simp
  then have "int (draw mod ?n) < int ?n" by simp
  moreover have "load_random_email fs draw s = load_email_by_index fs (int (draw mod ?n)) s"
    using assms by (simp add: load_random_email_def randint_def)
  ultimately show ?thesis by (intro exI [of _ "int (draw mod ?n)"]) simp
qed

text \<open>
  Claim C1. When the list of the current mode is empty, \<^verbatim>\<open>_load_random_email\<close> fails with
  the \<^verbatim>\<open>ValueError\<close> that \<^verbatim>\<open>random.randint(0, -1)\<close> raises for its empty range (the
  error the specification calls EmptyCatalog), whatever the generator would draw; it
  does not fail with the \<^verbatim>\<open>IndexError\<close> of an access outside the list.
\<close>

theorem load_random_email_empty:
  "get_current_file_list s = [] \<Longrightarrow>
     fst (load_random_email fs draw s) = Some ValueError
     \<and> fst (load_random_email fs draw s) \<noteq> Some IndexError"
  by (simp add: load_random_email_def randint_def)

theorem load_random_email_empty_witness:
  "get_current_file_list (init [] []) = []
   \<and> fst (load_random_email example_fs 7 (init [] [])) = Some ValueError"
proof -
  have e: "get_current_file_list (init [] []) = []"
    by (simp add: init_def get_current_file_list_def)
  show ?thesis
    using e load_random_email_empty [OF e, of example_fs 7] by simp
qed

text \<open>
  Claim C10. When the list of the current mode is empty, the failing
  \<^verbatim>\<open>_load_random_email\<close> leaves the whole viewer as it was: the exception is raised while
  the index is chosen, before anything is assigned.
\<close>

theorem load_random_email_empty_unchanged:
  "get_current_file_list s = [] \<Longrightarrow> snd (load_random_email fs draw s) = s"
  by (simp add: load_random_email_def randint_def)

theorem load_random_email_empty_unchanged_witness:
  "get_current_file_list (snd (toggle_mode (init [txt_file ''1.txt''] []))) = []
   \<and> snd (load_random_email example_fs 4 (snd (toggle_mode (init [txt_file ''1.txt''] []))))
       = snd (toggle_mode (init [txt_file ''1.txt''] []))"
proof -
  have e: "get_current_file_list (snd (toggle_mode (init [txt_file ''1.txt''] []))) = []"
    by (simp add: init_def toggle_mode_def get_current_file_list_def)
  show ?thesis
    using e load_random_email_empty_unchanged [OF e, of example_fs 4] by simp
qed

subsection \<open>Stepping\<close>

text \<open>
  Claim C7. \<^verbatim>\<open>_load_previous_email\<close> does nothing when the current index is none or 0,
  \<^verbatim>\<open>_load_next_email\<close> does nothing when it is none or \<open>n - 1\<close>, with \<open>n\<close> the length of the
  list of the current mode; otherwise they are \<^verbatim>\<open>_load_email_by_index\<close> at the index
  before and after. Neither raises.
\<close>

theorem load_previous_next:
  "load_previous_email fs s =
     (if current_index s = None \<or> current_index s = Some 0 then (None, s)
      else load_email_by_index fs (the (current_index s) - 1) s)
   \<and> load_next_email fs s =
     (if current_index s = None
         \<or> current_index s = Some (int (length (get_current_file_list s)) - 1)
      then (None, s)
      else load_email_by_index fs (the (current_index s) + 1) s)
   \<and> fst (load_previous_email fs s) = None
   \<and> fst (load_next_email fs s) = None"
proof -
  have p: "load_previous_email fs s =
     (if current_index s = None \<or> current_index s = Some 0 then (None, s)
      else load_email_by_index fs (the (current_index s) - 1) s)"
  proof (cases "current_index s")
    case None
    then show ?thesis by (simp add: load_previous_email_def)
  next
    case (Some i)
    then show ?thesis
      using load_email_by_index_out [of "i - 1" s fs] by (simp add: load_previous_email_def)
  qed
  have n: "load_next_email fs s =
     (if current_index s = None
         \<or> current_index s = Some (int (length (get_current_file_list s)) - 1)
      then (None, s)
      else load_email_by_index fs (the (current_index s) + 1) s)"
  proof (cases "current_index s")
    case None
    then show ?thesis by (simp add: load_next_email_def)
  next
    case (Some i)
    then show ?thesis
      using load_email_by_index_out [of "i + 1" s fs] by (simp add: load_next_email_def Let_def)
  qed
  have "fst (load_previous_email fs s) = None"
    by (simp add: load_previous_email_def load_email_by_index_returns split: option.splits)
  moreover have "fst (load_next_email fs s) = None"
    by (simp add: load_next_email_def load_email_by_index_returns Let_def split: option.splits)
  ultimately show ?thesis using p n by simp
qed

subsection \<open>The invariant\<close>

lemma load_email_by_index_valid:
  "index_valid s \<Longrightarrow> index_valid (snd (load_email_by_index fs i s))"
  by (auto simp add: index_valid_def load_email_by_index_list load_email_by_index_index
      split: option.splits if_splits)

lemma toggle_mode_valid: "index_valid (snd (toggle_mode s))"
  by (simp add: index_valid_def toggle_mode_def)

lemma perform_valid: "index_valid s \<Longrightarrow> index_valid (snd (perform fs a s))"
  by (cases a)
    (simp_all add: toggle_mode_valid load_email_by_index_valid load_random_email_def
      load_previous_email_def load_next_email_def Let_def split: sum.splits option.splits)

lemma init_valid: "index_valid (init hams spams)"
  by (simp add: index_valid_def init_def)

lemma run_valid: "index_valid s \<Longrightarrow> index_valid (run session s)"
proof (induction session arbitrary: s)
  case Nil
  then show ?case by simp
next
  case (Cons step session)
  obtain fs a where "step = (fs, a)" by (cases step)
  with Cons show ?case by (simp add: perform_valid)
qed

text \<open>
  Claim C6. In every state that a session of actions reaches from a fresh viewer, the
  current index, when present, is an index into the list of the current mode; and it is
  so again after any further action (toggle, random load, load at any index, previous,
  next), whether the action returns or raises and whether its read succeeds or fails.
\<close>

theorem reachable_index_valid:
  "index_valid (run session (init hams spams))
   \<and> index_valid (snd (perform fs a (run session (init hams spams))))"
  by (simp add: run_valid init_valid perform_valid)

text \<open>A session on the example: toggle to spam and back, load the unreadable third ham
  file, step on. The index is 2 and stays in the list.\<close>

theorem reachable_index_valid_witness:
  "current_index (run [(example_fs, ToggleMode), (example_fs, ToggleMode),
                       (example_fs, LoadAt 2)] example_viewer) = Some 2
   \<and> index_valid (run [(example_fs, ToggleMode), (example_fs, ToggleMode),
                        (example_fs, LoadAt 2)] example_viewer)
   \<and> index_valid (snd (perform example_fs LoadNext
         (run [(example_fs, ToggleMode), (example_fs, ToggleMode),
               (example_fs, LoadAt 2)] example_viewer)))"
proof -
  have "current_index (run [(example_fs, ToggleMode), (example_fs, ToggleMode),
                       (example_fs, LoadAt 2)] example_viewer) = Some 2"
    by (simp add: toggle_mode_def load_email_by_index_def list_getitem_def Let_def
        example_viewer_def init_def get_current_file_list_def example_fs_def txt_file_def)
  then show ?thesis
    using reachable_index_valid
      [of "[(example_fs, ToggleMode), (example_fs, ToggleMode), (example_fs, LoadAt 2)]"
          "[txt_file ''1.txt'', txt_file ''2.txt'', txt_file ''3.txt'']"
          "[txt_file ''2.txt'', txt_file ''abc.txt'']" example_fs LoadNext]
    by (simp add: example_viewer_def)
qed

subsection \<open>The catalogue\<close>

lemma numeric_key: "numeric p \<longleftrightarrow> sort_key_fn p \<noteq> InfKey"
  by (simp add: numeric_def sort_key_fn_def split: option.splits)

lemma InfKey_greatest: "InfKey \<le> k \<longleftrightarrow> k = InfKey"
  by (cases k) simp_all

text \<open>In a list sorted by key, nothing numeric follows a file that is not.\<close>

lemma sorted_keys_split:
  "sorted (map sort_key_fn ps) \<Longrightarrow>
     ps = filter numeric ps @ filter (\<lambda>p. \<not> numeric p) ps"
proof (induction ps)
  case Nil
  then show ?case by simp
next
  case (Cons p ps)
  show ?case
  proof (cases "numeric p")
    case True
    with Cons show ?thesis by simp
  next
    case False
    then have "\<forall>q \<in> set ps. \<not> numeric q"
      using Cons.prems by (auto simp add: numeric_key InfKey_greatest)
    then have "filter numeric ps = []" and "filter (\<lambda>p. \<not> numeric p) ps = ps"
      by (simp_all add: filter_empty_conv)
    with False show ?thesis by simp
  qed
qed

lemma set_numeric_stems:
  "n \<in> set (numeric_stems ps) \<Longrightarrow> \<exists>p \<in> set ps. sort_key_fn p = IntKey n"
  by (induction ps) (auto simp add: sort_key_fn_def split: option.splits)

lemma sorted_keys_numeric:
  "sorted (map sort_key_fn ps) \<Longrightarrow> sorted (numeric_stems ps)"
proof (induction ps)
  case Nil
  then show ?case by simp
next
  case (Cons p ps)
  then have rest: "sorted (numeric_stems ps)" by simp
  show ?case
  proof (cases "py_int (stem p)")
    case None
    with rest show ?thesis by simp
  next
    case (Some n)
    then have key: "sort_key_fn p = IntKey n" by (simp add: sort_key_fn_def)
    have "n \<le> m" if "m \<in> set (numeric_stems ps)" for m
    proof -
      from that obtain q where "q \<in> set ps" and "sort_key_fn q = IntKey m"
        using set_numeric_stems by blast
      with Cons.prems key show ?thesis by auto
    qed
    with rest Some show ?thesis by simp
  qed
qed

lemma sort_key_fn_catalog: "sorted_catalog found (sort_key sort_key_fn found)"
proof -
  let ?ps = "sort_key sort_key_fn found"
  have s: "sorted (map sort_key_fn ?ps)" by simp
  have "filter (\<lambda>p. sort_key_fn p = InfKey) ?ps = filter (\<lambda>p. sort_key_fn p = InfKey) found"
    by (rule sort_key_stable)
  then have "filter (\<lambda>p. \<not> numeric p) ?ps = filter (\<lambda>p. \<not> numeric p) found"
    by (simp add: numeric_key)
  with s show ?thesis
    using sorted_keys_split [OF s] sorted_keys_numeric [OF s]
    by (simp add: sorted_catalog_def)
qed

text \<open>
  Claim C4. For every pair of directories, each list that \<^verbatim>\<open>load_email_files\<close> returns
  holds the files found below its directory, ascending by the integer parsed from the
  stem; every file whose stem does not parse stands after all files with numeric stems,
  and those files keep the order in which they were found.
\<close>

theorem load_email_files_sorted:
  assumes "load_email_files fs ham_dir spam_dir = Inr (hams, spams)"
    and "rglob fs ham_dir = Inr ham_found" and "rglob fs spam_dir = Inr spam_found"
  shows "sorted_catalog ham_found hams \<and> sorted_catalog spam_found spams"
  using assms by (auto simp add: load_email_files_def sort_key_fn_catalog)

theorem load_email_files_sorted_witness:
  "load_email_files example_fs ''data/ham'' ''data/spam'' =
     Inr ([txt_file ''1.txt'', txt_file ''2.txt'', txt_file ''3.txt''],
          [txt_file ''2.txt'', txt_file ''abc.txt''])
   \<and> rglob example_fs ''data/ham'' =
       Inr [txt_file ''3.txt'', txt_file ''1.txt'', txt_file ''2.txt'']
   \<and> rglob example_fs ''data/spam'' = Inr [txt_file ''abc.txt'', txt_file ''2.txt'']
   \<and> sorted_catalog [txt_file ''3.txt'', txt_file ''1.txt'', txt_file ''2.txt'']
        [txt_file ''1.txt'', txt_file ''2.txt'', txt_file ''3.txt'']
   \<and> sorted_catalog [txt_file ''abc.txt'', txt_file ''2.txt'']
        [txt_file ''2.txt'', txt_file ''abc.txt'']"
proof -
  have l: "load_email_files example_fs ''data/ham'' ''data/spam'' =
     Inr ([txt_file ''1.txt'', txt_file ''2.txt'', txt_file ''3.txt''],
          [txt_file ''2.txt'', txt_file ''abc.txt''])"
    by code_simp
  have h: "rglob example_fs ''data/ham'' =
       Inr [txt_file ''3.txt'', txt_file ''1.txt'', txt_file ''2.txt'']"
    by (simp add: rglob_def example_fs_def)
  have s: "rglob example_fs ''data/spam'' = Inr [txt_file ''abc.txt'', txt_file ''2.txt'']"
    by (simp add: rglob_def example_fs_def)
  show ?thesis
    using l h s load_email_files_sorted [OF l h s] by simp
qed

text \<open>A path that may not be examined makes the call raise \<^verbatim>\<open>OSError\<close>.\<close>

lemma load_email_files_refused:
  "listing fs ham_dir = Refused \<or> listing fs spam_dir = Refused \<Longrightarrow>
     load_email_files fs ham_dir spam_dir = Inl OSError"
  by (auto simp add: load_email_files_def rglob_def split: dir_listing.splits)

text \<open>
  Claim C2, as the code has it. For every pair of paths that can be examined,
  \<^verbatim>\<open>load_email_files\<close> returns a catalogue: a path that is not an existing directory gives
  the empty list for its category, as an existing directory without matching files does.
  The module has no check for a missing directory, and \<^verbatim>\<open>rglob\<close> yields nothing for one.
\<close>

theorem load_email_files_missing_or_empty:
  assumes "listing fs ham_dir \<noteq> Refused" and "listing fs spam_dir \<noteq> Refused"
  shows "\<exists>hams spams. load_email_files fs ham_dir spam_dir = Inr (hams, spams)
     \<and> (listing fs ham_dir = NoDirectory \<or> listing fs ham_dir = Entries [] \<longrightarrow> hams = [])
     \<and> (listing fs spam_dir = NoDirectory \<or> listing fs spam_dir = Entries [] \<longrightarrow> spams = [])"
  using assms
  by (auto simp add: load_email_files_def rglob_def split: dir_listing.splits)

theorem load_email_files_missing_or_empty_witness:
  "listing example_fs ''data/nowhere'' = NoDirectory
   \<and> listing example_fs ''data/empty'' = Entries []
   \<and> load_email_files example_fs ''data/nowhere'' ''data/empty'' = Inr ([], [])"
proof -
  have n: "listing example_fs ''data/nowhere'' = NoDirectory"
    by (simp add: example_fs_def)
  have e: "listing example_fs ''data/empty'' = Entries []"
    by (simp add: example_fs_def)
  have n': "listing example_fs ''data/nowhere'' \<noteq> Refused" using n by simp
  have e': "listing example_fs ''data/empty'' \<noteq> Refused" using e by simp
  from load_email_files_missing_or_empty [OF n' e']
  obtain hams spams where
    "load_email_files example_fs ''data/nowhere'' ''data/empty'' = Inr (hams, spams)"
    and "listing example_fs ''data/nowhere'' = NoDirectory
          \<or> listing example_fs ''data/nowhere'' = Entries [] \<longrightarrow> hams = []"
    and "listing example_fs ''data/empty'' = NoDirectory
          \<or> listing example_fs ''data/empty'' = Entries [] \<longrightarrow> spams = []"
    by blast
  with n e show ?thesis by simp
qed

text \<open>
  The claim as written fails: \<^verbatim>\<open>data/missing\<close> is no directory of the example, and the
  call returns a catalogue whose ham list is empty.
\<close>

theorem load_email_files_missing_counterexample:
  "listing example_fs ''data/missing'' = NoDirectory
   \<and> load_email_files example_fs ''data/missing'' ''data/spam''
       = Inr ([], [txt_file ''2.txt'', txt_file ''abc.txt''])"
  by code_simp

text \<open>With a path that may not be examined the call raises.\<close>

lemma load_email_files_refused_example:
  "load_email_files example_fs ''locked/ham'' ''data/spam'' = Inl OSError"
  by code_simp

end
